theory Spec2Isabelle
  imports Main
begin

section \<open>s3synccli: the class SmartS3Sync of s3sync.py\<close>

text \<open>
  The script syncs a local directory with an S3 prefix. Everything it does to the outside
  goes through child processes: \<^verbatim>\<open>find | sort\<close> on the local disk and the \<^verbatim>\<open>aws\<close>
  command line on the bucket. The model keeps the Python as it is written and makes the
  two outside parties explicit: the local disk is a function from a path to what the
  pipeline prints, the bucket is a state that answers \<^verbatim>\<open>head-object\<close> and is changed
  by \<^verbatim>\<open>put-object\<close> and \<^verbatim>\<open>copy-object\<close>. Every \<^verbatim>\<open>aws\<close> process that is
  started is appended to a log, so that a statement about "which calls are issued" is a
  statement about that log. An exception is a value: a function that can raise returns
  the exception beside, or instead of, its result.
\<close>

subsection \<open>Python strings\<close>

text \<open>
  A \<^verbatim>\<open>str\<close> is a \<^typ>\<open>string\<close>; a \<^typ>\<open>char\<close> stands for a code point below 256.
\<close>

definition newline :: char where
  "newline = CHR 0x0A"

definition slash :: char where
  "slash = CHR ''/''"

text \<open>\<^verbatim>\<open>str.isspace\<close> on one character, for the code points below 256.\<close>

definition isspace :: "char \<Rightarrow> bool" where
  "isspace c = ((of_char c :: nat) \<in> set [9, 10, 11, 12, 13, 28, 29, 30, 31, 32, 133, 160])"

text \<open>\<^verbatim>\<open>s.strip()\<close>: whitespace is removed at both ends.\<close>

definition strip :: "string \<Rightarrow> string" where
  "strip s = rev (dropWhile isspace (rev (dropWhile isspace s)))"

text \<open>
  \<^verbatim>\<open>s.split(sep)\<close> for a one-character separator: every occurrence cuts, and the result
  is never empty (\<^verbatim>\<open>''.split('\n') == ['']\<close>).
\<close>

fun str_split :: "char \<Rightarrow> string \<Rightarrow> string list" where
  "str_split sep [] = [[]]"
| "str_split sep (c # cs) =
     (if c = sep then [] # str_split sep cs
      else (case str_split sep cs of
              [] \<Rightarrow> [[c]]
            | w # ws \<Rightarrow> (c # w) # ws))"

text \<open>\<^verbatim>\<open>s.split(sep, 1)\<close>: only the first occurrence cuts.\<close>

definition str_split1 :: "char \<Rightarrow> string \<Rightarrow> string list" where
  "str_split1 sep s =
     (case dropWhile (\<lambda>c. c \<noteq> sep) s of
        [] \<Rightarrow> [s]
      | _ # rest \<Rightarrow> [takeWhile (\<lambda>c. c \<noteq> sep) s, rest])"

text \<open>\<^verbatim>\<open>s.endswith('/')\<close>, the property the key invariant is about.\<close>

definition ends_with_slash :: "string \<Rightarrow> bool" where
  "ends_with_slash s = (s \<noteq> [] \<and> last s = slash)"

subsection \<open>JSON values, texts and the exceptions of the json module\<close>

text \<open>
  What \<^verbatim>\<open>json.loads\<close> returns. A dict is its list of items in insertion order;
  \<^verbatim>\<open>json.loads\<close> never repeats a key in it. Numbers are kept as integers only: no
  function of the script looks into a number.
\<close>

datatype json =
    JNull
  | JBool bool
  | JNum int
  | JStr string
  | JArr "json list"
  | JObj "(string \<times> json) list"

text \<open>
  A JSON text (the value of \<^verbatim>\<open>--metadata\<close>, the output of \<^verbatim>\<open>head-object\<close>) is
  represented by the value it denotes; \<open>None\<close> is a text that \<^verbatim>\<open>json.loads\<close> rejects,
  the empty output of a failed child process in particular (or bytes that do not decode:
  for the output of \<^verbatim>\<open>head-object\<close> both exceptions are raised in the same
  \<^verbatim>\<open>try\<close> block).
\<close>

type_synonym json_text = "json option"

text \<open>
  The exceptions that the script can meet: those of the json module and of the item
  operations, \<^verbatim>\<open>UnicodeDecodeError\<close> of \<^verbatim>\<open>bytes.decode\<close>, and
  \<^verbatim>\<open>FileNotFoundError\<close> of \<^verbatim>\<open>subprocess\<close> for a program that cannot be started.
\<close>

datatype error = JSONDecodeError | TypeError | KeyError | UnicodeDecodeError | FileNotFoundError

definition loads :: "json_text \<Rightarrow> error + json" where
  "loads t = (case t of None \<Rightarrow> Inl JSONDecodeError | Some j \<Rightarrow> Inr j)"

definition dumps :: "json \<Rightarrow> json_text" where
  "dumps j = Some j"

text \<open>\<^verbatim>\<open>d[k] = v\<close> on a dict: an existing key keeps its place, a new one goes last.\<close>

fun dict_setitem :: "(string \<times> json) list \<Rightarrow> string \<Rightarrow> json \<Rightarrow> (string \<times> json) list" where
  "dict_setitem [] k v = [(k, v)]"
| "dict_setitem ((k', v') # d) k v =
     (if k' = k then (k, v) # d else (k', v') # dict_setitem d k v)"

text \<open>
  \<^verbatim>\<open>x[k] = v\<close> with a string \<open>k\<close> on whatever \<^verbatim>\<open>json.loads\<close> returned: only a dict
  takes it, every other value raises \<^verbatim>\<open>TypeError\<close>.
\<close>

fun setitem :: "json \<Rightarrow> string \<Rightarrow> json \<Rightarrow> error + json" where
  "setitem (JObj d) k v = Inr (JObj (dict_setitem d k v))"
| "setitem _ k v = Inl TypeError"

text \<open>
  \<^verbatim>\<open>x[k]\<close> with a string \<open>k\<close>: \<^verbatim>\<open>KeyError\<close> on a dict without the key,
  \<^verbatim>\<open>TypeError\<close> on every other value.
\<close>

fun getitem :: "json \<Rightarrow> string \<Rightarrow> error + json" where
  "getitem (JObj d) k = (case map_of d k of None \<Rightarrow> Inl KeyError | Some v \<Rightarrow> Inr v)"
| "getitem _ k = Inl TypeError"

text \<open>\<^verbatim>\<open>len(x) == 0\<close>: defined on dicts, lists and strings, \<^verbatim>\<open>TypeError\<close> otherwise.\<close>

fun len_is_zero :: "json \<Rightarrow> error + bool" where
  "len_is_zero (JObj d) = Inr (d = [])"
| "len_is_zero (JArr xs) = Inr (xs = [])"
| "len_is_zero (JStr s) = Inr (s = [])"
| "len_is_zero _ = Inl TypeError"

subsection \<open>The command line and the object\<close>

text \<open>
  The module-level \<^verbatim>\<open>options\<close> that docopt returns: the two positional arguments and
  the two options, each a string (both options have a default).
\<close>

record options =
  opt_localdir :: string
  opt_s3path :: string
  opt_metadata :: json_text
  opt_profile :: string

text \<open>The attributes of a \<^verbatim>\<open>SmartS3Sync\<close> object, as \<^verbatim>\<open>__init__\<close> sets them.\<close>

record s3sync =
  local :: string
  s3path :: string
  bucket :: string
  key :: string
  localToKeys :: "string list"
  metadir :: json_text
  metafile :: json_text
  profile :: string

subsection \<open>parse\_meta\<close>

text \<open>
  The body reads the global \<^verbatim>\<open>options['--metadata']\<close> twice and never its parameter
  \<^verbatim>\<open>meta\<close>. An exception of \<^verbatim>\<open>json.loads\<close> or of the item assignment leaves the
  function.
\<close>

definition parse_meta :: "options \<Rightarrow> json_text \<Rightarrow> error + (json_text \<times> json_text)" where
  "parse_meta opts meta =
     (case loads (opt_metadata opts) of
        Inl e \<Rightarrow> Inl e
      | Inr metadir0 \<Rightarrow>
          (case setitem metadir0 ''mode'' (JStr ''509'') of
             Inl e \<Rightarrow> Inl e
           | Inr metadir1 \<Rightarrow>
               (let metadirjs = dumps metadir1 in
                case loads (opt_metadata opts) of
                  Inl e \<Rightarrow> Inl e
                | Inr metafile0 \<Rightarrow>
                    (case setitem metafile0 ''mode'' (JStr ''33204'') of
                       Inl e \<Rightarrow> Inl e
                     | Inr metafile1 \<Rightarrow>
                         (let metafilejs = dumps metafile1 in
                          Inr (metadirjs, metafilejs))))))"

subsection \<open>parse\_prefix\<close>

definition parse_prefix :: "string \<Rightarrow> string" where
  "parse_prefix path =
     (if length (str_split1 slash path) > 1 then str_split1 slash path ! 1 else path)"

subsection \<open>find\_dirs\<close>

text \<open>
  The local disk: for the path handed to \<^verbatim>\<open>find\<close>, what becomes of the pipeline
  \<^verbatim>\<open>find path -type d | sort -n\<close>.
  \<^item> \<open>NotStarted\<close>: \<^verbatim>\<open>find\<close> or \<^verbatim>\<open>sort\<close> cannot be started, and
    \<^verbatim>\<open>subprocess.Popen\<close> raises \<^verbatim>\<open>FileNotFoundError\<close>.
  \<^item> \<open>Undecodable\<close>: the bytes written are not UTF-8 (a directory name that is not),
    and \<^verbatim>\<open>.decode()\<close> raises \<^verbatim>\<open>UnicodeDecodeError\<close>.
  \<^item> \<open>Printed ls\<close>: the lines written to the standard output, decoded, in the order
    \<^verbatim>\<open>sort\<close> leaves them. A directory prints at least itself. A path that does not
    exist, or is no directory, prints no line at all: \<^verbatim>\<open>find\<close> complains on its
    standard error, which the script does not read, and the exit status is not looked at.
\<close>

datatype pipeline = NotStarted | Undecodable | Printed "string list"

type_synonym disk = "string \<Rightarrow> pipeline"

definition pipeline_stdout :: "string list \<Rightarrow> string" where
  "pipeline_stdout ls = concat (map (\<lambda>l. l @ [newline]) ls)"

text \<open>
  The two attributes \<^verbatim>\<open>self.key\<close> and \<^verbatim>\<open>self.local\<close> are set before \<^verbatim>\<open>__init__\<close>
  calls the method; they are its first two arguments here.
\<close>

definition find_dirs :: "string \<Rightarrow> string \<Rightarrow> disk \<Rightarrow> string \<Rightarrow> error + string list" where
  "find_dirs self_key self_local disk loc =
     (case disk loc of
        NotStarted \<Rightarrow> Inl FileNotFoundError
      | Undecodable \<Rightarrow> Inl UnicodeDecodeError
      | Printed ls \<Rightarrow>
          (let dLst = str_split newline (strip (pipeline_stdout ls))
           in Inr (map (\<lambda>k. self_key @ drop (length self_local + 1) k @ ''/'') dLst)))"

subsection \<open>\_\_init\_\_\<close>

text \<open>
  The assignments in the order of the source: an exception of \<^verbatim>\<open>find_dirs\<close> leaves
  the constructor before \<^verbatim>\<open>parse_meta\<close> is called.
\<close>

definition init :: "options \<Rightarrow> disk \<Rightarrow> string \<Rightarrow> string \<Rightarrow> json_text \<Rightarrow> string \<Rightarrow> error + s3sync" where
  "init opts disk loc path meta prof =
     (let b = str_split1 slash path ! 0;
          k = parse_prefix path
      in case find_dirs k loc disk loc of
           Inl e \<Rightarrow> Inl e
         | Inr ks \<Rightarrow>
             (case parse_meta opts meta of
                Inl e \<Rightarrow> Inl e
              | Inr (md, mf) \<Rightarrow>
                  Inr \<lparr>local = loc, s3path = path, bucket = b, key = k, localToKeys = ks,
                       metadir = md, metafile = mf, profile = prof\<rparr>))"

subsection \<open>The bucket and the log of child processes\<close>

text \<open>
  One entry per \<^verbatim>\<open>aws\<close> process started, with the arguments the script passes:
  bucket, key and profile for \<^verbatim>\<open>head-object\<close>; bucket, key, copy source, metadata and
  profile for \<^verbatim>\<open>copy-object\<close> (always with the directive REPLACE); bucket, key,
  metadata and profile for \<^verbatim>\<open>put-object\<close>; local directory, URL, metadata and profile
  for \<^verbatim>\<open>s3 sync\<close>.
\<close>

datatype call =
    HeadObject string string string
  | CopyObject string string string json_text string
  | PutObject string string json_text string
  | S3Sync string string json_text string

text \<open>What the bucket holds under a key: nothing, or an object with its metadata mapping.\<close>

datatype slot = Absent | Object "(string \<times> json) list"

text \<open>
  The world outside the process. \<open>remote\<close> is the content of the bucket. \<open>refused\<close>
  marks the keys on which the store refuses the calls for another reason than absence (no
  permission, no network): \<^verbatim>\<open>head-object\<close> then prints nothing, exactly as for a key
  that is not there, and a mutation changes nothing. \<open>aws_missing\<close> says that the
  \<^verbatim>\<open>aws\<close> program cannot be started at all. \<open>calls\<close> is the log of the processes
  started, \<open>stderr\<close> what the script wrote to its standard error.
\<close>

record world =
  remote :: "string \<Rightarrow> slot"
  refused :: "string \<Rightarrow> bool"
  aws_missing :: bool
  calls :: "call list"
  stderr :: "string list"

text \<open>
  The lookup of a key does not get through: the program cannot be started, or the store
  refuses the call.
\<close>

definition fault :: "world \<Rightarrow> string \<Rightarrow> bool" where
  "fault w k = (aws_missing w \<or> refused w k)"

text \<open>
  \<^verbatim>\<open>subprocess.Popen\<close> and \<^verbatim>\<open>subprocess.run\<close> on an \<^verbatim>\<open>aws\<close> command line: the
  process is started and logged, or \<^verbatim>\<open>FileNotFoundError\<close> is raised. The exit status of
  a process that ran is never looked at (\<^verbatim>\<open>run\<close> is called without \<^verbatim>\<open>check\<close>).
\<close>

definition run_aws :: "call \<Rightarrow> world \<Rightarrow> error option \<times> world" where
  "run_aws c w =
     (if aws_missing w then (Some FileNotFoundError, w)
      else (None, w\<lparr>calls := calls w @ [c]\<rparr>))"

text \<open>The standard output of a started \<^verbatim>\<open>aws s3api head-object\<close> for a key.\<close>

definition head_stdout :: "world \<Rightarrow> string \<Rightarrow> json_text" where
  "head_stdout w k =
     (if refused w k then None
      else (case remote w k of
              Absent \<Rightarrow> None
            | Object m \<Rightarrow> Some (JObj [(''Metadata'', JObj m)])))"

text \<open>
  The effect of a started \<^verbatim>\<open>put-object\<close> on the bucket: the key holds an (empty) object
  with the metadata mapping that the text denotes; a text that is no mapping is refused.
\<close>

definition put_effect :: "world \<Rightarrow> string \<Rightarrow> json_text \<Rightarrow> (string \<Rightarrow> slot)" where
  "put_effect w k metadata =
     (if refused w k then remote w
      else (case metadata of
              Some (JObj d) \<Rightarrow> (remote w)(k := Object d)
            | _ \<Rightarrow> remote w))"

text \<open>
  The effect of a started \<^verbatim>\<open>copy-object\<close> of a key onto itself with the directive
  REPLACE: the metadata of an existing object is replaced as a whole.
\<close>

definition copy_effect :: "world \<Rightarrow> string \<Rightarrow> json_text \<Rightarrow> (string \<Rightarrow> slot)" where
  "copy_effect w k metadata =
     (if refused w k then remote w
      else (case (remote w k, metadata) of
              (Object _, Some (JObj d)) \<Rightarrow> (remote w)(k := Object d)
            | _ \<Rightarrow> remote w))"

subsection \<open>key\_exists, meta\_check, meta\_update, create\_key\<close>

text \<open>
  Each of the three methods that start a process returns the exception raised, if any,
  beside the world. \<^verbatim>\<open>key_exists\<close> returns the standard output to be read.
\<close>

definition key_exists :: "s3sync \<Rightarrow> string \<Rightarrow> world \<Rightarrow> (error + json_text) \<times> world" where
  "key_exists self k w =
     (case run_aws (HeadObject (bucket self) k (profile self)) w of
        (Some e, w1) \<Rightarrow> (Inl e, w1)
      | (None, w1) \<Rightarrow> (Inr (head_stdout w k), w1))"

definition meta_check :: "json_text \<Rightarrow> error + bool" where
  "meta_check obj_head =
     (case loads obj_head of
        Inl e \<Rightarrow> Inl e
      | Inr j \<Rightarrow>
          (case getitem j ''Metadata'' of
             Inl e \<Rightarrow> Inl e
           | Inr meta \<Rightarrow>
               (case len_is_zero meta of
                  Inl e \<Rightarrow> Inl e
                | Inr z \<Rightarrow> if z then Inr False else Inr True)))"

definition meta_update :: "s3sync \<Rightarrow> string \<Rightarrow> json_text \<Rightarrow> world \<Rightarrow> error option \<times> world" where
  "meta_update self k metadata w =
     (case run_aws (CopyObject (bucket self) k (bucket self @ ''/'' @ k) metadata (profile self)) w of
        (Some e, w1) \<Rightarrow> (Some e, w1)
      | (None, w1) \<Rightarrow> (None, w1\<lparr>remote := copy_effect w k metadata\<rparr>))"

definition create_key :: "s3sync \<Rightarrow> string \<Rightarrow> json_text \<Rightarrow> world \<Rightarrow> error option \<times> world" where
  "create_key self k metadata w =
     (case run_aws (PutObject (bucket self) k metadata (profile self)) w of
        (Some e, w1) \<Rightarrow> (Some e, w1)
      | (None, w1) \<Rightarrow> (None, w1\<lparr>remote := put_effect w k metadata\<rparr>))"

subsection \<open>verify\_keys\<close>

text \<open>
  The handler of the bare \<^verbatim>\<open>except:\<close>: a line on the standard error, then
  \<^verbatim>\<open>create_key\<close>. An exception raised here leaves \<^verbatim>\<open>verify_keys\<close>.
\<close>

definition except_block :: "s3sync \<Rightarrow> json_text \<Rightarrow> string \<Rightarrow> world \<Rightarrow> error option \<times> world" where
  "except_block self meta k w =
     create_key self k meta
       (w\<lparr>stderr := stderr w @ [''creating key '' @ [CHR 0x27] @ k @ [CHR 0x27] @ [newline]]\<rparr>)"

text \<open>
  One turn of the loop. The \<^verbatim>\<open>try\<close> block starts \<^verbatim>\<open>head-object\<close>, reads its output
  and updates the metadata if there are none; whatever is raised in it goes to the handler.
\<close>

definition verify_key :: "s3sync \<Rightarrow> json_text \<Rightarrow> world \<Rightarrow> string \<Rightarrow> error option \<times> world" where
  "verify_key self meta w k =
     (case key_exists self k w of
        (Inl e, w1) \<Rightarrow> except_block self meta k w1
      | (Inr check, w1) \<Rightarrow>
          (case meta_check check of
             Inl e \<Rightarrow> except_block self meta k w1
           | Inr metaresult \<Rightarrow>
               (if \<not> metaresult
                then (case meta_update self k meta
                             (w1\<lparr>stderr := stderr w1 @
                                  [''no metadata found for '' @ k @ '' updating...'' @ [newline]]\<rparr>) of
                        (Some e, w2) \<Rightarrow> except_block self meta k w2
                      | (None, w2) \<Rightarrow> (None, w2))
                else (None, w1))))"

text \<open>The loop stops at the first exception that leaves a turn.\<close>

fun verify_keys :: "s3sync \<Rightarrow> string list \<Rightarrow> json_text \<Rightarrow> world \<Rightarrow> error option \<times> world" where
  "verify_keys self [] meta w = (None, w)"
| "verify_keys self (k # ks) meta w =
     (case verify_key self meta w k of
        (Some e, w1) \<Rightarrow> (Some e, w1)
      | (None, w1) \<Rightarrow> verify_keys self ks meta w1)"

subsection \<open>sync\<close>

text \<open>
  The three statements in sequence; an exception of one skips the rest. The last starts
  \<^verbatim>\<open>aws s3 sync\<close>; what that process uploads is outside the model, only its start is
  logged.
\<close>

definition sync :: "s3sync \<Rightarrow> world \<Rightarrow> error option \<times> world" where
  "sync self w =
     (case verify_keys self [key self] (metadir self) w of
        (Some e, w1) \<Rightarrow> (Some e, w1)
      | (None, w1) \<Rightarrow>
          (case verify_keys self (drop 1 (localToKeys self)) (metadir self) w1 of
             (Some e, w2) \<Rightarrow> (Some e, w2)
           | (None, w2) \<Rightarrow>
               (let s3url = ''s3://'' @ s3path self
                in run_aws (S3Sync (local self) s3url (metafile self) (profile self)) w2)))"

text \<open>The main program: build the object from the command line, then sync.\<close>

definition main :: "options \<Rightarrow> disk \<Rightarrow> world \<Rightarrow> error option \<times> world" where
  "main opts disk w =
     (case init opts disk (opt_localdir opts) (opt_s3path opts) (opt_metadata opts) (opt_profile opts) of
        Inl e \<Rightarrow> (Some e, w)
      | Inr s3_sync \<Rightarrow> sync s3_sync w)"

subsection \<open>Reading the log\<close>

text \<open>The calls that change the bucket under a given key.\<close>

fun mutates :: "string \<Rightarrow> call \<Rightarrow> bool" where
  "mutates k (PutObject b k' m p) = (k' = k)"
| "mutates k (CopyObject b k' src m p) = (k' = k)"
| "mutates k _ = False"

fun is_mutation :: "call \<Rightarrow> bool" where
  "is_mutation (PutObject b k m p) = True"
| "is_mutation (CopyObject b k src m p) = True"
| "is_mutation _ = False"




text \<open>The calls a run added to the log.\<close>

definition issued :: "world \<Rightarrow> world \<Rightarrow> call list" where
  "issued w w' = drop (length (calls w)) (calls w')"


subsection \<open>Reading the bucket\<close>

text \<open>The bucket holds the key with a non-empty metadata mapping.\<close>

fun has_metadata :: "slot \<Rightarrow> bool" where
  "has_metadata Absent = False"
| "has_metadata (Object m) = (m \<noteq> [])"

text \<open>A key that needs nothing: its lookup gets through and finds metadata.\<close>

definition settled :: "world \<Rightarrow> string \<Rightarrow> bool" where
  "settled w k = (\<not> fault w k \<and> has_metadata (remote w k))"

subsection \<open>Concrete runs\<close>

text \<open>
  The default of \<^verbatim>\<open>--metadata\<close> in the usage text, \<^verbatim>\<open>{"uid":"6812", "gid":"6812"}\<close>,
  and the command line \<^verbatim>\<open>s3up l p\<close> with both options left at their defaults.
\<close>

definition default_metadata :: json_text where
  "default_metadata = Some (JObj [(''uid'', JStr ''6812''), (''gid'', JStr ''6812'')])"

definition command_line :: "string \<Rightarrow> string \<Rightarrow> options" where
  "command_line l p =
     \<lparr>opt_localdir = l, opt_s3path = p, opt_metadata = default_metadata, opt_profile = ''default''\<rparr>"

text \<open>The two attribute sets that belong to the default.\<close>

definition dir_metadata :: json_text where
  "dir_metadata = Some (JObj [(''uid'', JStr ''6812''), (''gid'', JStr ''6812''), (''mode'', JStr ''509'')])"

definition file_metadata :: json_text where
  "file_metadata = Some (JObj [(''uid'', JStr ''6812''), (''gid'', JStr ''6812''), (''mode'', JStr ''33204'')])"

text \<open>
  The object for the local tree \<^verbatim>\<open>root\<close>, \<^verbatim>\<open>root/a\<close>, \<^verbatim>\<open>root/b\<close>, \<^verbatim>\<open>root/b/c\<close>
  and the target \<^verbatim>\<open>bkt/dest/\<close>.
\<close>

definition dest_sync :: s3sync where
  "dest_sync =
     \<lparr>local = ''root'', s3path = ''bkt/dest/'', bucket = ''bkt'', key = ''dest/'',
      localToKeys = [''dest//'', ''dest/a/'', ''dest/b/'', ''dest/b/c/''],
      metadir = dir_metadata, metafile = file_metadata, profile = ''default''\<rparr>"

text \<open>An empty bucket; nothing has been logged yet.\<close>

definition empty_bucket :: world where
  "empty_bucket =
     \<lparr>remote = (\<lambda>_. Absent), refused = (\<lambda>_. False), aws_missing = False, calls = [], stderr = []\<rparr>"

text \<open>
  A bucket that holds \<^verbatim>\<open>dest/\<close> without metadata and \<^verbatim>\<open>dest/b/\<close> with metadata.
\<close>

definition partial_bucket :: world where
  "partial_bucket =
     \<lparr>remote = (\<lambda>k. if k = ''dest/'' then Object []
                     else if k = ''dest/b/'' then Object [(''uid'', JStr ''1000'')]
                     else Absent),
      refused = (\<lambda>k. False), aws_missing = False, calls = [], stderr = []\<rparr>"

text \<open>
  A bucket in which \<^verbatim>\<open>dest/\<close> holds an object with metadata, and on which the calls
  for that key are refused.
\<close>

definition locked_bucket :: world where
  "locked_bucket =
     \<lparr>remote = (\<lambda>k. if k = ''dest/'' then Object [(''uid'', JStr ''1000'')] else Absent),
      refused = (\<lambda>k. k = ''dest/''), aws_missing = False, calls = [], stderr = []\<rparr>"



section \<open>Properties\<close>

subsection \<open>Strings\<close>

lemma str_split_not_Nil: "str_split sep s \<noteq> []"
  by (induction s) (auto split: list.splits)

lemma str_split_without_sep: "sep \<notin> set s \<Longrightarrow> str_split sep s = [s]"
  by (induction s) auto

lemma strip_Nil: "strip [] = []"
  by (simp add: strip_def)

lemma strip_snoc_space:
  assumes "isspace c"
  shows "strip (s @ [c]) = strip s"
proof (cases "\<forall>x \<in> set s. isspace x")
  case True
  then have a: "dropWhile isspace s = []"
    by (simp only: dropWhile_eq_Nil_conv)
  from True assms have "\<forall>x \<in> set (s @ [c]). isspace x"
    by simp
  then have b: "dropWhile isspace (s @ [c]) = []"
    by (simp only: dropWhile_eq_Nil_conv)
  show ?thesis
    unfolding strip_def a b by simp
next
  case False
  then have "dropWhile isspace (s @ [c]) = dropWhile isspace s @ [c]"
    by (auto simp: dropWhile_append)
  with assms show ?thesis
    by (simp add: strip_def)
qed

lemma set_strip: "set (strip s) \<subseteq> set s"
  unfolding strip_def
  by (metis set_dropWhileD set_rev subsetI)

lemma length_strip: "length (strip s) \<le> length s"
  unfolding strip_def
  by (metis length_dropWhile_le length_rev order_trans)

lemma isspace_newline: "isspace newline"
  by (simp add: isspace_def newline_def)

lemma str_split1_no_slash:
  assumes "sep \<notin> set s"
  shows "str_split1 sep s = [s]"
proof -
  from assms have "\<forall>x \<in> set s. x \<noteq> sep"
    by auto
  then have a: "dropWhile (\<lambda>c. c \<noteq> sep) s = []"
    by (simp only: dropWhile_eq_Nil_conv)
  show ?thesis
    unfolding str_split1_def a by simp
qed

lemma str_split1_at_first:
  assumes "sep \<notin> set b"
  shows "str_split1 sep (b @ sep # r) = [b, r]"
proof -
  from assms have all: "\<And>x. x \<in> set b \<Longrightarrow> x \<noteq> sep"
    by auto
  have "dropWhile (\<lambda>c. c \<noteq> sep) (b @ sep # r) = sep # r"
    using all by (simp add: dropWhile_append2)
  moreover have "takeWhile (\<lambda>c. c \<noteq> sep) (b @ sep # r) = b"
    using all by (simp add: takeWhile_append2)
  ultimately show ?thesis
    by (simp add: str_split1_def)
qed

subsection \<open>parse\_prefix and find\_dirs\<close>

lemma parse_prefix_without_slash: "slash \<notin> set path \<Longrightarrow> parse_prefix path = path"
  by (simp add: parse_prefix_def str_split1_no_slash)

lemma parse_prefix_at_first: "slash \<notin> set b \<Longrightarrow> parse_prefix (b @ slash # r) = r"
  by (simp add: parse_prefix_def str_split1_at_first)

lemma parse_prefix_ends_with_slash:
  "ends_with_slash (parse_prefix path) \<longleftrightarrow> parse_prefix path \<noteq> [] \<and> ends_with_slash path"
proof (cases "slash \<in> set path")
  case True
  from split_list_first [OF True] obtain b r where p: "path = b @ slash # r" and n: "slash \<notin> set b"
    by blast
  have "parse_prefix path = r"
    unfolding p using n by (rule parse_prefix_at_first)
  then show ?thesis
    by (auto simp: ends_with_slash_def p)
next
  case False
  then have k: "parse_prefix path = path"
    by (rule parse_prefix_without_slash)
  from False have "\<not> ends_with_slash path"
    unfolding ends_with_slash_def using last_in_set by metis
  then show ?thesis
    by (simp add: k)
qed

lemma find_dirs_Inr:
  assumes "find_dirs k l disk loc = Inr ks"
  shows "\<exists>ls. disk loc = Printed ls"
  using assms by (cases "disk loc") (simp_all add: find_dirs_def)

lemma find_dirs_not_Nil:
  assumes "find_dirs k l disk loc = Inr ks"
  shows "ks \<noteq> []"
proof -
  from find_dirs_Inr [OF assms] obtain ls where "disk loc = Printed ls"
    by blast
  with assms show ?thesis
    by (auto simp: find_dirs_def str_split_not_Nil)
qed

lemma find_dirs_no_line: "disk loc = Printed [] \<Longrightarrow> find_dirs k l disk loc = Inr [k @ ''/'']"
  by (simp add: find_dirs_def pipeline_stdout_def strip_Nil)

lemma find_dirs_root_only:
  assumes "disk loc = Printed [loc]" and "newline \<notin> set loc"
  shows "find_dirs k loc disk loc = Inr [k @ ''/'']"
proof -
  have out: "strip (pipeline_stdout [loc]) = strip loc"
    by (simp add: pipeline_stdout_def strip_snoc_space isspace_newline)
  have "newline \<notin> set (strip loc)"
    using assms(2) set_strip by blast
  then have "str_split newline (strip loc) = [strip loc]"
    by (rule str_split_without_sep)
  moreover have "drop (length loc + 1) (strip loc) = []"
    using length_strip [of loc] by simp
  ultimately show ?thesis
    using out assms(1) by (simp add: find_dirs_def)
qed

lemma find_dirs_end_with_slash:
  assumes "find_dirs p l disk loc = Inr ks"
  shows "\<forall>k \<in> set ks. ends_with_slash k"
proof -
  from find_dirs_Inr [OF assms] obtain ls where "disk loc = Printed ls"
    by blast
  with assms show ?thesis
    by (auto simp: find_dirs_def ends_with_slash_def slash_def)
qed

subsection \<open>parse\_meta and \_\_init\_\_\<close>

lemma map_of_dict_setitem: "map_of (dict_setitem d k v) = (map_of d)(k \<mapsto> v)"
  by (induction d) auto

lemma dict_setitem_not_Nil: "dict_setitem d k v \<noteq> []"
  by (cases d) (auto split: if_splits)

lemma parse_meta_dict:
  "opt_metadata opts = Some (JObj base) \<Longrightarrow>
   parse_meta opts meta =
     Inr (Some (JObj (dict_setitem base ''mode'' (JStr ''509''))),
          Some (JObj (dict_setitem base ''mode'' (JStr ''33204''))))"
  by (simp add: parse_meta_def loads_def dumps_def)

lemma parse_meta_Inr:
  assumes "parse_meta opts meta = Inr (md, mf)"
  shows "\<exists>base. opt_metadata opts = Some (JObj base)"
proof (cases "opt_metadata opts")
  case None
  with assms show ?thesis by (simp add: parse_meta_def loads_def)
next
  case (Some j)
  with assms show ?thesis
    by (cases j) (simp_all add: parse_meta_def loads_def)
qed

lemma parse_meta_nonempty:
  assumes "parse_meta opts x = Inr (md, mf)"
  shows "\<exists>d f. md = Some (JObj d) \<and> d \<noteq> [] \<and> mf = Some (JObj f) \<and> f \<noteq> [] \<and> md \<noteq> mf"
proof -
  from parse_meta_Inr [OF assms] obtain base where "opt_metadata opts = Some (JObj base)"
    by blast
  from parse_meta_dict [OF this, of x] assms
  have md: "md = Some (JObj (dict_setitem base ''mode'' (JStr ''509'')))"
    and mf: "mf = Some (JObj (dict_setitem base ''mode'' (JStr ''33204'')))"
    by simp_all
  have "map_of (dict_setitem base ''mode'' (JStr ''509'')) ''mode'' \<noteq>
        map_of (dict_setitem base ''mode'' (JStr ''33204'')) ''mode''"
    by (simp add: map_of_dict_setitem)
  then have "dict_setitem base ''mode'' (JStr ''509'') \<noteq> dict_setitem base ''mode'' (JStr ''33204'')"
    by metis
  then show ?thesis
    by (simp add: md mf dict_setitem_not_Nil)
qed

lemma parse_meta_command_line:
  "parse_meta (command_line l p) x = Inr (dir_metadata, file_metadata)"
  by (simp add: parse_meta_def loads_def dumps_def command_line_def default_metadata_def
      dir_metadata_def file_metadata_def)

lemma init_Inr:
  assumes "find_dirs (parse_prefix path) loc disk loc = Inr ks"
    and "parse_meta opts meta = Inr (md, mf)"
  shows "init opts disk loc path meta prof =
           Inr \<lparr>local = loc, s3path = path, bucket = str_split1 slash path ! 0,
                key = parse_prefix path, localToKeys = ks,
                metadir = md, metafile = mf, profile = prof\<rparr>"
  using assms by (simp add: init_def Let_def)

lemma init_fields:
  assumes "init opts disk loc path meta prof = Inr self"
  shows "local self = loc" "s3path self = path" "bucket self = str_split1 slash path ! 0"
    "key self = parse_prefix path"
    "find_dirs (parse_prefix path) loc disk loc = Inr (localToKeys self)"
    "profile self = prof" "parse_meta opts meta = Inr (metadir self, metafile self)"
  using assms by (auto simp: init_def Let_def split: sum.splits prod.splits)



subsection \<open>One turn of the loop of verify\_keys\<close>

lemmas verify_key_defs =
  verify_key_def except_block_def key_exists_def run_aws_def head_stdout_def meta_check_def
  loads_def meta_update_def create_key_def put_effect_def copy_effect_def

lemma verify_key_aws_missing:
  "aws_missing w \<Longrightarrow>
   verify_key self meta w k =
     (Some FileNotFoundError,
      w\<lparr>stderr := stderr w @ [''creating key '' @ [CHR 0x27] @ k @ [CHR 0x27] @ [newline]]\<rparr>)"
  by (simp add: verify_key_defs)

lemma fst_verify_key: "\<not> aws_missing w \<Longrightarrow> fst (verify_key self meta w k) = None"
  by (simp add: verify_key_defs split: slot.splits)

lemma aws_missing_verify_key: "aws_missing (snd (verify_key self meta w k)) = aws_missing w"
  by (simp add: verify_key_defs split: slot.splits)

lemma refused_verify_key: "refused (snd (verify_key self meta w k)) = refused w"
  by (simp add: verify_key_defs split: slot.splits)

lemma fault_verify_key: "fault (snd (verify_key self meta w k)) j = fault w j"
  by (simp add: fault_def aws_missing_verify_key refused_verify_key)

lemma remote_verify_key_other:
  "j \<noteq> k \<Longrightarrow> remote (snd (verify_key self meta w k)) j = remote w j"
  by (simp add: verify_key_defs split: slot.splits option.splits json.splits)

lemma remote_verify_key_same:
  "\<not> fault w k \<Longrightarrow>
   remote (snd (verify_key self (Some (JObj d)) w k)) k =
     (case remote w k of Absent \<Rightarrow> Object d | Object m \<Rightarrow> if m = [] then Object d else Object m)"
  by (simp add: fault_def verify_key_defs split: slot.splits)

lemma verify_key_settled:
  "settled w k \<Longrightarrow>
   verify_key self meta w k =
     (None, w\<lparr>calls := calls w @ [HeadObject (bucket self) k (profile self)]\<rparr>)"
  by (cases "remote w k") (simp_all add: settled_def fault_def verify_key_defs)

lemma verify_key_settles:
  "\<not> fault w k \<Longrightarrow> d \<noteq> [] \<Longrightarrow> settled (snd (verify_key self (Some (JObj d)) w k)) k"
  by (simp add: settled_def fault_verify_key remote_verify_key_same split: slot.splits)

lemma verify_key_keeps_settled:
  assumes "settled w j" and "d \<noteq> []"
  shows "settled (snd (verify_key self (Some (JObj d)) w k)) j"
proof (cases "j = k")
  case True
  from assms(1) have "\<not> fault w k"
    by (simp add: settled_def True)
  then show ?thesis
    unfolding True using assms(2) by (rule verify_key_settles)
next
  case False
  with assms show ?thesis
    by (simp add: settled_def fault_verify_key remote_verify_key_other)
qed

lemma issued_verify_key:
  "issued w (snd (verify_key self meta w k)) =
     (if aws_missing w then []
      else HeadObject (bucket self) k (profile self) #
             (if refused w k \<or> remote w k = Absent
                then [PutObject (bucket self) k meta (profile self)]
              else if remote w k = Object []
                then [CopyObject (bucket self) k (bucket self @ ''/'' @ k) meta (profile self)]
              else []))"
  by (cases "remote w k") (simp_all add: issued_def verify_key_defs)

lemma calls_verify_key_extends:
  "calls (snd (verify_key self meta w k)) = calls w @ issued w (snd (verify_key self meta w k))"
  by (simp add: issued_def verify_key_defs split: slot.splits)

subsection \<open>The whole loop\<close>

lemma verify_keys_Cons_started:
  "\<not> aws_missing w \<Longrightarrow>
   verify_keys self (k # ks) meta w = verify_keys self ks meta (snd (verify_key self meta w k))"
  using fst_verify_key [of w self meta k]
  by (cases "verify_key self meta w k") simp

lemma verify_keys_aws_missing:
  "aws_missing w \<Longrightarrow>
   verify_keys self (k # ks) meta w =
     (Some FileNotFoundError,
      w\<lparr>stderr := stderr w @ [''creating key '' @ [CHR 0x27] @ k @ [CHR 0x27] @ [newline]]\<rparr>)"
  by (simp add: verify_key_aws_missing)

lemma fst_verify_keys: "\<not> aws_missing w \<Longrightarrow> fst (verify_keys self ks meta w) = None"
proof (induction ks arbitrary: w)
  case Nil
  show ?case by simp
next
  case (Cons k ks)
  from Cons.prems have "\<not> aws_missing (snd (verify_key self meta w k))"
    by (simp add: aws_missing_verify_key)
  then have "fst (verify_keys self ks meta (snd (verify_key self meta w k))) = None"
    by (rule Cons.IH)
  then show ?case
    by (simp only: verify_keys_Cons_started [OF Cons.prems])
qed

lemma aws_missing_verify_keys: "aws_missing (snd (verify_keys self ks meta w)) = aws_missing w"
proof (induction ks arbitrary: w)
  case Nil
  show ?case by simp
next
  case (Cons k ks)
  show ?case
  proof (cases "aws_missing w")
    case True
    then show ?thesis
      by (simp add: verify_keys_aws_missing del: verify_keys.simps)
  next
    case False
    then show ?thesis
      by (simp add: verify_keys_Cons_started Cons.IH aws_missing_verify_key del: verify_keys.simps)
  qed
qed

lemma refused_verify_keys: "refused (snd (verify_keys self ks meta w)) = refused w"
proof (induction ks arbitrary: w)
  case Nil
  show ?case by simp
next
  case (Cons k ks)
  show ?case
  proof (cases "aws_missing w")
    case True
    then show ?thesis
      by (simp add: verify_keys_aws_missing del: verify_keys.simps)
  next
    case False
    then show ?thesis
      by (simp add: verify_keys_Cons_started Cons.IH refused_verify_key del: verify_keys.simps)
  qed
qed

lemma fault_verify_keys: "fault (snd (verify_keys self ks meta w)) j = fault w j"
  by (simp add: fault_def aws_missing_verify_keys refused_verify_keys)

lemma calls_verify_keys_grow: "\<exists>t. calls (snd (verify_keys self ks meta w)) = calls w @ t"
proof (induction ks arbitrary: w)
  case Nil
  show ?case by simp
next
  case (Cons k ks)
  show ?case
  proof (cases "aws_missing w")
    case True
    then show ?thesis
      by (simp add: verify_keys_aws_missing del: verify_keys.simps)
  next
    case False
    from Cons.IH [of "snd (verify_key self meta w k)"] obtain t
      where "calls (snd (verify_keys self ks meta (snd (verify_key self meta w k)))) =
               calls (snd (verify_key self meta w k)) @ t"
      by blast
    then have "calls (snd (verify_keys self (k # ks) meta w)) =
                 calls w @ (issued w (snd (verify_key self meta w k)) @ t)"
      using calls_verify_key_extends [of self meta w k]
      by (simp add: verify_keys_Cons_started [OF False] del: verify_keys.simps)
    then show ?thesis
      by blast
  qed
qed

lemma calls_verify_keys_extends:
  "calls (snd (verify_keys self ks meta w)) = calls w @ issued w (snd (verify_keys self ks meta w))"
proof -
  from calls_verify_keys_grow obtain t
    where "calls (snd (verify_keys self ks meta w)) = calls w @ t"
    by blast
  then show ?thesis
    by (simp add: issued_def)
qed

lemma issued_append:
  assumes "calls w1 = calls w @ a" and "calls w2 = calls w1 @ b"
  shows "issued w w2 = a @ b"
  using assms by (simp add: issued_def)

lemma issued_verify_keys_Cons:
  assumes "\<not> aws_missing w"
  shows "issued w (snd (verify_keys self (k # ks) meta w)) =
     issued w (snd (verify_key self meta w k)) @
     issued (snd (verify_key self meta w k))
       (snd (verify_keys self ks meta (snd (verify_key self meta w k))))"
  unfolding verify_keys_Cons_started [OF assms]
  using issued_append [OF calls_verify_key_extends calls_verify_keys_extends]
  by simp


lemma filter_mutates_verify_key_same:
  "\<not> fault w k \<Longrightarrow>
   filter (mutates k) (issued w (snd (verify_key self meta w k))) =
     (case remote w k of
        Absent \<Rightarrow> [PutObject (bucket self) k meta (profile self)]
      | Object m \<Rightarrow>
          if m = [] then [CopyObject (bucket self) k (bucket self @ ''/'' @ k) meta (profile self)]
          else [])"
  by (simp add: fault_def issued_verify_key split: slot.splits)

lemma filter_mutates_verify_key_other:
  "j \<noteq> k \<Longrightarrow> filter (mutates k) (issued w (snd (verify_key self meta w j))) = []"
  by (simp add: issued_verify_key)

lemma filter_mutates_verify_keys:
  assumes "\<not> fault w k" and "d \<noteq> []"
  shows "filter (mutates k) (issued w (snd (verify_keys self keys (Some (JObj d)) w))) =
           (if k \<in> set keys
            then (case remote w k of
                    Absent \<Rightarrow> [PutObject (bucket self) k (Some (JObj d)) (profile self)]
                  | Object m \<Rightarrow>
                      if m = []
                      then [CopyObject (bucket self) k (bucket self @ ''/'' @ k) (Some (JObj d)) (profile self)]
                      else [])
            else [])"
  using assms(1)
proof (induction keys arbitrary: w)
  case Nil
  show ?case by (simp add: issued_def)
next
  case (Cons j ks)
  let ?meta = "Some (JObj d)"
  let ?w1 = "snd (verify_key self ?meta w j)"
  from Cons.prems have started: "\<not> aws_missing w"
    by (simp add: fault_def)
  have f1: "\<not> fault ?w1 k"
    using Cons.prems by (simp add: fault_verify_key)
  note ih = Cons.IH [OF f1]
  note split = issued_verify_keys_Cons [OF started, of self j ks ?meta]
  show ?case
  proof (cases "j = k")
    case True
    have "settled ?w1 k"
      unfolding True using Cons.prems assms(2) by (rule verify_key_settles)
    then have "\<exists>m. remote ?w1 k = Object m \<and> m \<noteq> []"
      by (cases "remote ?w1 k") (simp_all add: settled_def)
    with ih have rest: "filter (mutates k) (issued ?w1 (snd (verify_keys self ks ?meta ?w1))) = []"
      by auto
    show ?thesis
      unfolding split filter_append rest
      using Cons.prems by (simp add: True filter_mutates_verify_key_same)
  next
    case False
    have "remote ?w1 k = remote w k"
      using False by (simp add: remote_verify_key_other)
    with ih have rest: "filter (mutates k) (issued ?w1 (snd (verify_keys self ks ?meta ?w1))) =
           (if k \<in> set ks
            then (case remote w k of
                    Absent \<Rightarrow> [PutObject (bucket self) k ?meta (profile self)]
                  | Object m \<Rightarrow>
                      if m = []
                      then [CopyObject (bucket self) k (bucket self @ ''/'' @ k) ?meta (profile self)]
                      else [])
            else [])"
      by simp
    show ?thesis
      unfolding split filter_append rest
      using False by (simp add: filter_mutates_verify_key_other)
  qed
qed

lemma settled_calls_update: "settled (w\<lparr>calls := cs\<rparr>) k = settled w k"
  by (simp add: settled_def fault_def)

lemma verify_keys_keeps_settled:
  assumes "settled w j" and "d \<noteq> []"
  shows "settled (snd (verify_keys self ks (Some (JObj d)) w)) j"
  using assms(1)
proof (induction ks arbitrary: w)
  case Nil
  then show ?case by simp
next
  case (Cons k ks)
  from Cons.prems have started: "\<not> aws_missing w"
    by (simp add: settled_def fault_def)
  from Cons.prems assms(2) have "settled (snd (verify_key self (Some (JObj d)) w k)) j"
    by (rule verify_key_keeps_settled)
  then have "settled (snd (verify_keys self ks (Some (JObj d)) (snd (verify_key self (Some (JObj d)) w k)))) j"
    by (rule Cons.IH)
  then show ?case
    by (simp only: verify_keys_Cons_started [OF started])
qed

lemma verify_keys_settles:
  assumes "d \<noteq> []"
  shows "\<forall>k \<in> set ks. \<not> fault w k \<Longrightarrow>
         \<forall>k \<in> set ks. settled (snd (verify_keys self ks (Some (JObj d)) w)) k"
proof (induction ks arbitrary: w)
  case Nil
  show ?case by simp
next
  case (Cons j ks)
  let ?w1 = "snd (verify_key self (Some (JObj d)) w j)"
  from Cons.prems have nf: "\<not> fault w j"
    by simp
  then have started: "\<not> aws_missing w"
    by (simp add: fault_def)
  from nf have "settled ?w1 j"
    using assms by (rule verify_key_settles)
  then have first: "settled (snd (verify_keys self ks (Some (JObj d)) ?w1)) j"
    using assms by (rule verify_keys_keeps_settled)
  from Cons.prems have "\<forall>k \<in> set ks. \<not> fault ?w1 k"
    by (simp add: fault_verify_key)
  then have "\<forall>k \<in> set ks. settled (snd (verify_keys self ks (Some (JObj d)) ?w1)) k"
    by (rule Cons.IH)
  with first show ?case
    by (simp add: verify_keys_Cons_started [OF started] del: verify_keys.simps)
qed

lemma verify_keys_settled:
  "\<forall>k \<in> set ks. settled w k \<Longrightarrow>
   verify_keys self ks meta w =
     (None, w\<lparr>calls := calls w @ map (\<lambda>k. HeadObject (bucket self) k (profile self)) ks\<rparr>)"
proof (induction ks arbitrary: w)
  case Nil
  show ?case by simp
next
  case (Cons j ks)
  let ?w1 = "w\<lparr>calls := calls w @ [HeadObject (bucket self) j (profile self)]\<rparr>"
  from Cons.prems have step: "verify_key self meta w j = (None, ?w1)"
    by (simp add: verify_key_settled)
  from Cons.prems have "\<forall>k \<in> set ks. settled ?w1 k"
    by (simp add: settled_calls_update)
  then have "verify_keys self ks meta ?w1 =
               (None, ?w1\<lparr>calls := calls ?w1 @ map (\<lambda>k. HeadObject (bucket self) k (profile self)) ks\<rparr>)"
    by (rule Cons.IH)
  then show ?case
    by (simp add: step)
qed




subsection \<open>sync\<close>




section \<open>The claims\<close>

subsection \<open>C1: a failed lookup and the creation of the key\<close>

text \<open>
  C1 asks that only a genuine "not found" leads to \<^verbatim>\<open>put-object\<close>, and that any other
  failure of the lookup is propagated. \<^verbatim>\<open>verify_keys\<close> has one bare \<^verbatim>\<open>except:\<close>
  under the comment "key does not exist so lets create it", and it cannot tell the two
  apart: a refused \<^verbatim>\<open>head-object\<close> prints nothing, \<^verbatim>\<open>json.loads\<close> raises on the
  empty text as it does for a missing key, and the key is created. Here \<^verbatim>\<open>dest/\<close> holds
  an object with metadata of its own and the lookup is refused: the program still starts
  \<^verbatim>\<open>put-object\<close> on it, goes on to the bulk transfer and ends without an exception.
\<close>

theorem lookup_failure_creates:
  "fst (main (command_line ''root'' ''bkt/dest/'') (\<lambda>_. Printed [''root'']) locked_bucket) = None \<and>
   calls (snd (main (command_line ''root'' ''bkt/dest/'') (\<lambda>_. Printed [''root'']) locked_bucket)) =
     [HeadObject ''bkt'' ''dest/'' ''default'',
      PutObject ''bkt'' ''dest/''
        (Some (JObj [(''uid'', JStr ''6812''), (''gid'', JStr ''6812''), (''mode'', JStr ''509'')]))
        ''default'',
      S3Sync ''root'' ''s3://bkt/dest/''
        (Some (JObj [(''uid'', JStr ''6812''), (''gid'', JStr ''6812''), (''mode'', JStr ''33204'')]))
        ''default''] \<and>
   remote locked_bucket ''dest/'' = Object [(''uid'', JStr ''1000'')] \<and>
   fault locked_bucket ''dest/'' \<and>
   head_stdout locked_bucket ''dest/'' = None \<and>
   meta_check None = Inl JSONDecodeError"
  by (simp add: main_def init_def Let_def parse_prefix_def str_split1_def slash_def find_dirs_def
      pipeline_stdout_def strip_def isspace_def newline_def parse_meta_def loads_def dumps_def
      command_line_def default_metadata_def locked_bucket_def sync_def fault_def verify_key_defs)

subsection \<open>C2: one call per key\<close>

text \<open>
  C2: for a key of the list whose lookup gets through, one run of \<^verbatim>\<open>verify_keys\<close>
  returns, and its calls that change the bucket under that key are: exactly one
  \<^verbatim>\<open>put-object\<close> with the directory attributes when the bucket does not hold the key,
  exactly one \<^verbatim>\<open>copy-object\<close> (directive REPLACE) with them when it holds the key with
  an empty metadata mapping, and none when it holds the key with a non-empty one. The
  metadata handed to the reconciler is the directory set of \<^verbatim>\<open>parse_meta\<close>. The key list
  is arbitrary: it may repeat the key and hold keys on which the store refuses the calls.
\<close>

theorem reconcile_one_call_per_key:
  assumes "parse_meta opts x = Inr (md, mf)" and "k \<in> set keys" and "\<not> fault w k"
  shows "fst (verify_keys self keys md w) = None \<and>
         filter (mutates k) (issued w (snd (verify_keys self keys md w))) =
           (case remote w k of
              Absent \<Rightarrow> [PutObject (bucket self) k md (profile self)]
            | Object m \<Rightarrow>
                if m = [] then [CopyObject (bucket self) k (bucket self @ ''/'' @ k) md (profile self)]
                else [])"
proof -
  from parse_meta_nonempty [OF assms(1)] obtain d where md: "md = Some (JObj d)" and d: "d \<noteq> []"
    by blast
  from assms(3) have "\<not> aws_missing w"
    by (simp add: fault_def)
  then have "fst (verify_keys self keys md w) = None"
    by (rule fst_verify_keys)
  then show ?thesis
    unfolding md using filter_mutates_verify_keys [OF assms(3) d] assms(2) by simp
qed

text \<open>
  The three cases at once, on a bucket that holds \<^verbatim>\<open>dest/\<close> without metadata,
  \<^verbatim>\<open>dest/b/\<close> with metadata, and nothing else.
\<close>

theorem reconcile_one_call_per_key_witness:
  "parse_meta (command_line ''root'' ''bkt/dest/'') None = Inr (dir_metadata, file_metadata) \<and>
   \<not> fault partial_bucket ''dest/'' \<and>
   filter (mutates ''dest/a/'')
     (issued partial_bucket
        (snd (verify_keys dest_sync [''dest/'', ''dest/a/'', ''dest/b/''] dir_metadata partial_bucket))) =
     [PutObject ''bkt'' ''dest/a/'' dir_metadata ''default''] \<and>
   filter (mutates ''dest/'')
     (issued partial_bucket
        (snd (verify_keys dest_sync [''dest/'', ''dest/a/'', ''dest/b/''] dir_metadata partial_bucket))) =
     [CopyObject ''bkt'' ''dest/'' ''bkt/dest/'' dir_metadata ''default''] \<and>
   filter (mutates ''dest/b/'')
     (issued partial_bucket
        (snd (verify_keys dest_sync [''dest/'', ''dest/a/'', ''dest/b/''] dir_metadata partial_bucket))) =
     []"
proof -
  have p: "parse_meta (command_line ''root'' ''bkt/dest/'') None = Inr (dir_metadata, file_metadata)"
    by (rule parse_meta_command_line)
  have f: "\<not> fault partial_bucket k" for k
    by (simp add: partial_bucket_def fault_def)
  have a: "filter (mutates ''dest/a/'')
     (issued partial_bucket
        (snd (verify_keys dest_sync [''dest/'', ''dest/a/'', ''dest/b/''] dir_metadata partial_bucket))) =
     [PutObject ''bkt'' ''dest/a/'' dir_metadata ''default'']"
    using reconcile_one_call_per_key [OF p _ f, of "''dest/a/''" "[''dest/'', ''dest/a/'', ''dest/b/'']" dest_sync]
    by (simp add: partial_bucket_def dest_sync_def del: verify_keys.simps)
  have b: "filter (mutates ''dest/'')
     (issued partial_bucket
        (snd (verify_keys dest_sync [''dest/'', ''dest/a/'', ''dest/b/''] dir_metadata partial_bucket))) =
     [CopyObject ''bkt'' ''dest/'' ''bkt/dest/'' dir_metadata ''default'']"
    using reconcile_one_call_per_key [OF p _ f, of "''dest/''" "[''dest/'', ''dest/a/'', ''dest/b/'']" dest_sync]
    by (simp add: partial_bucket_def dest_sync_def del: verify_keys.simps)
  have c: "filter (mutates ''dest/b/'')
     (issued partial_bucket
        (snd (verify_keys dest_sync [''dest/'', ''dest/a/'', ''dest/b/''] dir_metadata partial_bucket))) =
     []"
    using reconcile_one_call_per_key [OF p _ f, of "''dest/b/''" "[''dest/'', ''dest/a/'', ''dest/b/'']" dest_sync]
    by (simp add: partial_bucket_def dest_sync_def del: verify_keys.simps)
  from p f a b c show ?thesis
    by blast
qed

subsection \<open>C3: the two attribute sets\<close>

text \<open>
  C3: when \<^verbatim>\<open>--metadata\<close> denotes a mapping \<open>base\<close>, \<^verbatim>\<open>parse_meta\<close> returns the
  mapping with \<^verbatim>\<open>mode\<close> bound to \<^verbatim>\<open>"509"\<close> for directories and the mapping with
  \<^verbatim>\<open>mode\<close> bound to \<^verbatim>\<open>"33204"\<close> for files. Read as finite maps, both are \<open>base\<close>
  updated at \<^verbatim>\<open>mode\<close>, so a \<^verbatim>\<open>mode\<close> of \<open>base\<close> is overwritten; for the default
  \<^verbatim>\<open>{"uid":"6812", "gid":"6812"}\<close> the two results are the sets of the specification.
\<close>

theorem parse_meta_sets:
  assumes "opt_metadata opts = Some (JObj base)"
  shows "parse_meta opts meta =
           Inr (Some (JObj (dict_setitem base ''mode'' (JStr ''509''))),
                Some (JObj (dict_setitem base ''mode'' (JStr ''33204'')))) \<and>
         map_of (dict_setitem base ''mode'' (JStr ''509'')) = (map_of base)(''mode'' \<mapsto> JStr ''509'') \<and>
         map_of (dict_setitem base ''mode'' (JStr ''33204'')) = (map_of base)(''mode'' \<mapsto> JStr ''33204'') \<and>
         (base = [(''uid'', JStr ''6812''), (''gid'', JStr ''6812'')] \<longrightarrow>
            parse_meta opts meta =
              Inr (Some (JObj [(''uid'', JStr ''6812''), (''gid'', JStr ''6812''), (''mode'', JStr ''509'')]),
                   Some (JObj [(''uid'', JStr ''6812''), (''gid'', JStr ''6812''), (''mode'', JStr ''33204'')])))"
  using assms by (simp add: parse_meta_dict map_of_dict_setitem)

theorem parse_meta_sets_witness:
  "opt_metadata (command_line ''root'' ''bkt/dest/'') =
     Some (JObj [(''uid'', JStr ''6812''), (''gid'', JStr ''6812'')]) \<and>
   parse_meta (command_line ''root'' ''bkt/dest/'') None =
     Inr (Some (JObj [(''uid'', JStr ''6812''), (''gid'', JStr ''6812''), (''mode'', JStr ''509'')]),
          Some (JObj [(''uid'', JStr ''6812''), (''gid'', JStr ''6812''), (''mode'', JStr ''33204'')]))"
  using parse_meta_sets [of "command_line ''root'' ''bkt/dest/''"
      "[(''uid'', JStr ''6812''), (''gid'', JStr ''6812'')]" None]
  by (simp add: command_line_def default_metadata_def)

subsection \<open>C4: a local path that does not exist\<close>

text \<open>
  C4 asks for a failure when the local path does not exist. For such a path \<^verbatim>\<open>find\<close>
  prints nothing, the output is empty, \<^verbatim>\<open>''.split('\n')\<close> is \<^verbatim>\<open>['']\<close>, and
  \<^verbatim>\<open>find_dirs\<close> returns the one key made of the prefix and a slash. The object is built
  as for a directory.
\<close>

theorem missing_directory_counterexample:
  "init (command_line ''/no/such/dir'' ''bkt/dest/'') (\<lambda>_. Printed []) ''/no/such/dir'' ''bkt/dest/''
       default_metadata ''default'' =
     Inr \<lparr>local = ''/no/such/dir'', s3path = ''bkt/dest/'', bucket = ''bkt'', key = ''dest/'',
          localToKeys = [''dest//''],
          metadir = Some (JObj [(''uid'', JStr ''6812''), (''gid'', JStr ''6812''), (''mode'', JStr ''509'')]),
          metafile = Some (JObj [(''uid'', JStr ''6812''), (''gid'', JStr ''6812''), (''mode'', JStr ''33204'')]),
          profile = ''default''\<rparr>"
  by (simp add: init_def Let_def parse_prefix_def str_split1_def slash_def find_dirs_def
      pipeline_stdout_def strip_def parse_meta_def loads_def dumps_def command_line_def
      default_metadata_def)

text \<open>
  C4 as the code has it: for a path on which \<^verbatim>\<open>find\<close> prints no line, \<^verbatim>\<open>find_dirs\<close>
  does not fail; it returns the list whose one element is the prefix followed by a slash,
  and that is also the list of a directory without subdirectories (whose name holds no
  newline). A list that \<^verbatim>\<open>find_dirs\<close> returns is never empty.
\<close>

theorem find_dirs_missing_path:
  "(disk loc = Printed [] \<longrightarrow> find_dirs k loc disk loc = Inr [k @ ''/'']) \<and>
   (disk loc = Printed [loc] \<and> newline \<notin> set loc \<longrightarrow> find_dirs k loc disk loc = Inr [k @ ''/'']) \<and>
   (find_dirs k loc disk loc = Inr ks \<longrightarrow> ks \<noteq> [])"
  using find_dirs_not_Nil find_dirs_no_line find_dirs_root_only by blast

theorem find_dirs_missing_path_witness:
  "find_dirs ''dest/'' ''/no/such/dir'' (\<lambda>_. Printed []) ''/no/such/dir'' = Inr [''dest//''] \<and>
   newline \<notin> set ''root'' \<and>
   find_dirs ''dest/'' ''root'' (\<lambda>_. Printed [''root'']) ''root'' = Inr [''dest//''] \<and>
   [''dest//''] \<noteq> ([] :: string list)"
proof -
  have nl: "newline \<notin> set ''root''"
    by (simp add: newline_def)
  from find_dirs_missing_path [of "\<lambda>_. Printed []" "''/no/such/dir''" "''dest/''"]
  have a: "find_dirs ''dest/'' ''/no/such/dir'' (\<lambda>_. Printed []) ''/no/such/dir'' = Inr [''dest//'']"
    by simp
  from find_dirs_missing_path [of "\<lambda>_. Printed [''root'']" "''root''" "''dest/''"] nl
  have b: "find_dirs ''dest/'' ''root'' (\<lambda>_. Printed [''root'']) ''root'' = Inr [''dest//'']"
    by simp
  from find_dirs_missing_path [of "\<lambda>_. Printed [''root'']" "''root''" "''dest/''" "[''dest//'']"] b
  have "[''dest//''] \<noteq> ([] :: string list)"
    by blast
  with a b nl show ?thesis
    by blast
qed

subsection \<open>C5: the order of sync\<close>




subsection \<open>C6: the trailing slash\<close>

text \<open>
  C6 asks that the root key, too, ends in a slash. The root key is the prefix as the user
  typed it: for the target \<^verbatim>\<open>bucket/a/b\<close> the program looks up and creates the key
  \<^verbatim>\<open>a/b\<close>.
\<close>

theorem root_key_counterexample:
  "fst (main (command_line ''root'' ''bucket/a/b'') (\<lambda>_. Printed [''root'']) empty_bucket) = None \<and>
   take 2 (calls (snd (main (command_line ''root'' ''bucket/a/b'') (\<lambda>_. Printed [''root'']) empty_bucket))) =
     [HeadObject ''bucket'' ''a/b'' ''default'',
      PutObject ''bucket'' ''a/b''
        (Some (JObj [(''uid'', JStr ''6812''), (''gid'', JStr ''6812''), (''mode'', JStr ''509'')]))
        ''default''] \<and>
   \<not> ends_with_slash ''a/b''"
  by (simp add: main_def init_def Let_def parse_prefix_def str_split1_def slash_def find_dirs_def
      pipeline_stdout_def strip_def isspace_def newline_def parse_meta_def loads_def dumps_def
      command_line_def default_metadata_def empty_bucket_def sync_def verify_key_defs
      ends_with_slash_def)

text \<open>
  C6 as the code has it: every key of \<^verbatim>\<open>localToKeys\<close> ends in a slash; the root key
  is \<^verbatim>\<open>parse_prefix\<close> of the target, unchanged, and it ends in a slash exactly when it
  is not empty and the target ends in a slash.
\<close>

theorem directory_keys_end_with_slash:
  assumes "init opts disk loc path meta prof = Inr self"
  shows "(\<forall>k \<in> set (localToKeys self). ends_with_slash k) \<and>
         key self = parse_prefix path \<and>
         (ends_with_slash (key self) \<longleftrightarrow> key self \<noteq> [] \<and> ends_with_slash path)"
  using init_fields(4) [OF assms] find_dirs_end_with_slash [OF init_fields(5) [OF assms]]
    parse_prefix_ends_with_slash
  by simp

theorem directory_keys_end_with_slash_witness:
  "init (command_line ''root'' ''bkt/dest/'') (\<lambda>_. Printed [''root'', ''root/a'']) ''root'' ''bkt/dest/''
       default_metadata ''default'' =
     Inr \<lparr>local = ''root'', s3path = ''bkt/dest/'', bucket = ''bkt'', key = ''dest/'',
          localToKeys = [''dest//'', ''dest/a/''],
          metadir = Some (JObj [(''uid'', JStr ''6812''), (''gid'', JStr ''6812''), (''mode'', JStr ''509'')]),
          metafile = Some (JObj [(''uid'', JStr ''6812''), (''gid'', JStr ''6812''), (''mode'', JStr ''33204'')]),
          profile = ''default''\<rparr> \<and>
   ends_with_slash ''dest//'' \<and> ends_with_slash ''dest/a/'' \<and> ends_with_slash ''dest/'' \<and>
   ends_with_slash ''bkt/dest/''"
proof -
  have i: "init (command_line ''root'' ''bkt/dest/'') (\<lambda>_. Printed [''root'', ''root/a'']) ''root'' ''bkt/dest/''
       default_metadata ''default'' =
     Inr \<lparr>local = ''root'', s3path = ''bkt/dest/'', bucket = ''bkt'', key = ''dest/'',
          localToKeys = [''dest//'', ''dest/a/''],
          metadir = Some (JObj [(''uid'', JStr ''6812''), (''gid'', JStr ''6812''), (''mode'', JStr ''509'')]),
          metafile = Some (JObj [(''uid'', JStr ''6812''), (''gid'', JStr ''6812''), (''mode'', JStr ''33204'')]),
          profile = ''default''\<rparr>"
    by (simp add: init_def Let_def parse_prefix_def str_split1_def slash_def find_dirs_def
      pipeline_stdout_def strip_def isspace_def newline_def parse_meta_def loads_def dumps_def
      command_line_def default_metadata_def)
  from directory_keys_end_with_slash [OF i] i show ?thesis
    by (simp add: ends_with_slash_def slash_def)
qed

subsection \<open>C7: a second run changes nothing\<close>

text \<open>
  C7: let the reconciler run on any key list and any content of the bucket, with the
  directory attributes of \<^verbatim>\<open>parse_meta\<close> and with lookups that get through for the
  keys of the list. Then both runs return, every key of the list holds an object with
  non-empty metadata after the first, and the second run on the resulting bucket issues
  the lookups only, one per entry of the list: no \<^verbatim>\<open>put-object\<close>, no
  \<^verbatim>\<open>copy-object\<close>, and the bucket stays as it is.
\<close>

theorem reconcile_idempotent:
  assumes "parse_meta opts x = Inr (md, mf)" and "\<forall>k \<in> set keys. \<not> fault w k"
  shows "issued (snd (verify_keys self keys md w))
           (snd (verify_keys self keys md (snd (verify_keys self keys md w)))) =
           map (\<lambda>k. HeadObject (bucket self) k (profile self)) keys \<and>
         filter is_mutation
           (issued (snd (verify_keys self keys md w))
              (snd (verify_keys self keys md (snd (verify_keys self keys md w))))) = [] \<and>
         remote (snd (verify_keys self keys md (snd (verify_keys self keys md w)))) =
           remote (snd (verify_keys self keys md w)) \<and>
         (\<forall>k \<in> set keys. has_metadata (remote (snd (verify_keys self keys md w)) k)) \<and>
         fst (verify_keys self keys md w) = None \<and>
         fst (verify_keys self keys md (snd (verify_keys self keys md w))) = None"
proof -
  from parse_meta_nonempty [OF assms(1)] obtain d where md: "md = Some (JObj d)" and d: "d \<noteq> []"
    by blast
  let ?w1 = "snd (verify_keys self keys md w)"
  have all: "\<forall>k \<in> set keys. settled ?w1 k"
    unfolding md using d assms(2) by (rule verify_keys_settles)
  then have second: "verify_keys self keys md ?w1 =
      (None, ?w1\<lparr>calls := calls ?w1 @ map (\<lambda>k. HeadObject (bucket self) k (profile self)) keys\<rparr>)"
    by (rule verify_keys_settled)
  have first: "fst (verify_keys self keys md w) = None"
  proof (cases keys)
    case Nil
    then show ?thesis by simp
  next
    case (Cons k ks)
    with assms(2) have "\<not> aws_missing w"
      by (simp add: fault_def)
    then show ?thesis
      by (rule fst_verify_keys)
  qed
  have "filter is_mutation (map (\<lambda>k. HeadObject (bucket self) k (profile self)) keys) = []"
    by (induction keys) simp_all
  then show ?thesis
    using all first by (simp add: second issued_def settled_def)
qed

theorem reconcile_idempotent_witness:
  "parse_meta (command_line ''root'' ''bkt/dest/'') None = Inr (dir_metadata, file_metadata) \<and>
   \<not> fault partial_bucket ''dest/'' \<and> \<not> fault partial_bucket ''dest/a/'' \<and>
   \<not> fault partial_bucket ''dest/b/'' \<and>
   issued (snd (verify_keys dest_sync [''dest/'', ''dest/a/'', ''dest/b/''] dir_metadata partial_bucket))
     (snd (verify_keys dest_sync [''dest/'', ''dest/a/'', ''dest/b/''] dir_metadata
        (snd (verify_keys dest_sync [''dest/'', ''dest/a/'', ''dest/b/''] dir_metadata partial_bucket)))) =
     [HeadObject ''bkt'' ''dest/'' ''default'', HeadObject ''bkt'' ''dest/a/'' ''default'',
      HeadObject ''bkt'' ''dest/b/'' ''default'']"
proof -
  have p: "parse_meta (command_line ''root'' ''bkt/dest/'') None = Inr (dir_metadata, file_metadata)"
    by (rule parse_meta_command_line)
  have f: "\<forall>k \<in> set [''dest/'', ''dest/a/'', ''dest/b/'']. \<not> fault partial_bucket k"
    by (simp add: partial_bucket_def fault_def)
  from reconcile_idempotent [OF p f, of dest_sync]
  have "issued (snd (verify_keys dest_sync [''dest/'', ''dest/a/'', ''dest/b/''] dir_metadata partial_bucket))
     (snd (verify_keys dest_sync [''dest/'', ''dest/a/'', ''dest/b/''] dir_metadata
        (snd (verify_keys dest_sync [''dest/'', ''dest/a/'', ''dest/b/''] dir_metadata partial_bucket)))) =
     map (\<lambda>k. HeadObject (bucket dest_sync) k (profile dest_sync)) [''dest/'', ''dest/a/'', ''dest/b/'']"
    by (rule conjunct1)
  then have "issued (snd (verify_keys dest_sync [''dest/'', ''dest/a/'', ''dest/b/''] dir_metadata partial_bucket))
     (snd (verify_keys dest_sync [''dest/'', ''dest/a/'', ''dest/b/''] dir_metadata
        (snd (verify_keys dest_sync [''dest/'', ''dest/a/'', ''dest/b/''] dir_metadata partial_bucket)))) =
     [HeadObject ''bkt'' ''dest/'' ''default'', HeadObject ''bkt'' ''dest/a/'' ''default'',
      HeadObject ''bkt'' ''dest/b/'' ''default'']"
    by (simp add: dest_sync_def del: verify_keys.simps)
  then show ?thesis
    using p f by simp
qed

subsection \<open>C8: the prefix of a target without a slash\<close>

text \<open>
  C8: \<^verbatim>\<open>parse_prefix\<close> returns \<^verbatim>\<open>a/b\<close> for \<^verbatim>\<open>bucket/a/b\<close>. For \<^verbatim>\<open>bucket\<close>
  the claim expects the empty prefix, and the docstring promises the "path without bucket
  name"; the \<^verbatim>\<open>else\<close> branch returns the whole string, the bucket name itself.
\<close>

theorem parse_prefix_bucket_alone:
  "parse_prefix ''bucket/a/b'' = ''a/b'' \<and> parse_prefix ''bucket'' = ''bucket''"
  by (simp add: parse_prefix_def str_split1_def slash_def)

subsection \<open>C9: the empty target\<close>

text \<open>
  C9 asks for a failure on the empty target. Neither \<^verbatim>\<open>parse_prefix\<close> nor
  \<^verbatim>\<open>__init__\<close> checks the target: the object is built, with an empty bucket name and
  an empty prefix.
\<close>

theorem empty_target_counterexample:
  "init (command_line ''root'' '''') (\<lambda>_. Printed [''root'']) ''root'' '''' default_metadata ''default'' =
     Inr \<lparr>local = ''root'', s3path = '''', bucket = '''', key = '''', localToKeys = [''/''],
          metadir = Some (JObj [(''uid'', JStr ''6812''), (''gid'', JStr ''6812''), (''mode'', JStr ''509'')]),
          metafile = Some (JObj [(''uid'', JStr ''6812''), (''gid'', JStr ''6812''), (''mode'', JStr ''33204'')]),
          profile = ''default''\<rparr>"
  by (simp add: init_def Let_def parse_prefix_def str_split1_def slash_def find_dirs_def
      pipeline_stdout_def strip_def isspace_def newline_def parse_meta_def loads_def dumps_def
      command_line_def default_metadata_def)

text \<open>
  C9 as the code has it: no target makes the construction fail. Whenever the enumeration
  of the local directories returns a list and the metadata parse, \<^verbatim>\<open>__init__\<close> builds
  the object, for every target, the empty one included. A target that holds a slash is cut
  at its first slash into bucket and prefix; a target without one is the bucket as a
  whole; the empty target has the empty prefix.
\<close>

theorem path_translator_total:
  assumes "find_dirs (parse_prefix path) loc disk loc = Inr ks"
    and "parse_meta opts meta = Inr (md, mf)"
  shows "\<exists>self. init opts disk loc path meta prof = Inr self \<and>
           (slash \<in> set path \<longrightarrow> slash \<notin> set (bucket self) \<and> path = bucket self @ slash # key self) \<and>
           (slash \<notin> set path \<longrightarrow> bucket self = path) \<and>
           (path = [] \<longrightarrow> key self = [])"
proof -
  define self where "self = \<lparr>local = loc, s3path = path, bucket = str_split1 slash path ! 0,
                key = parse_prefix path, localToKeys = ks,
                metadir = md, metafile = mf, profile = prof\<rparr>"
  have b: "bucket self = str_split1 slash path ! 0" and k: "key self = parse_prefix path"
    by (simp_all add: self_def)
  have i: "init opts disk loc path meta prof = Inr self"
    unfolding self_def using assms by (rule init_Inr)
  have with_slash: "slash \<notin> set (bucket self) \<and> path = bucket self @ slash # key self"
    if "slash \<in> set path"
  proof -
    from split_list_first [OF that] obtain b0 r where p: "path = b0 @ slash # r" and n: "slash \<notin> set b0"
      by blast
    have "str_split1 slash path ! 0 = b0"
      unfolding p using n by (simp add: str_split1_at_first)
    moreover have "parse_prefix path = r"
      unfolding p using n by (rule parse_prefix_at_first)
    ultimately show ?thesis
      using p n by (simp add: b k)
  qed
  have without: "bucket self = path" if "slash \<notin> set path"
    using that by (simp add: b str_split1_no_slash)
  have empty: "key self = []" if "path = []"
    using that by (simp add: k parse_prefix_without_slash)
  show ?thesis
    using i with_slash without empty by blast
qed

theorem path_translator_total_witness:
  "find_dirs (parse_prefix ''bucket/a/b'') ''root'' (\<lambda>_. Printed [''root'']) ''root'' = Inr [''a/b/''] \<and>
   parse_meta (command_line ''root'' ''bucket/a/b'') default_metadata =
     Inr (dir_metadata, file_metadata) \<and>
   (\<exists>self. init (command_line ''root'' ''bucket/a/b'') (\<lambda>_. Printed [''root'']) ''root'' ''bucket/a/b''
              default_metadata ''default'' = Inr self \<and>
           ''bucket/a/b'' = bucket self @ slash # key self \<and> slash \<notin> set (bucket self))"
proof -
  have f: "find_dirs (parse_prefix ''bucket/a/b'') ''root'' (\<lambda>_. Printed [''root'']) ''root'' = Inr [''a/b/'']"
    by (simp add: parse_prefix_def str_split1_def slash_def find_dirs_def pipeline_stdout_def
        strip_def isspace_def newline_def)
  have h: "parse_meta (command_line ''root'' ''bucket/a/b'') default_metadata =
     Inr (dir_metadata, file_metadata)"
    by (rule parse_meta_command_line)
  have s: "slash \<in> set ''bucket/a/b''"
    by (simp add: slash_def)
  from path_translator_total [OF f h, of "''default''"]
  obtain self where "init (command_line ''root'' ''bucket/a/b'') (\<lambda>_. Printed [''root'']) ''root'' ''bucket/a/b''
              default_metadata ''default'' = Inr self"
    and "slash \<in> set ''bucket/a/b'' \<longrightarrow>
           slash \<notin> set (bucket self) \<and> ''bucket/a/b'' = bucket self @ slash # key self"
    by blast
  with s f h show ?thesis
    by blast
qed

subsection \<open>C10: parse\_meta does not read its argument\<close>

text \<open>
  C10: with the global \<^verbatim>\<open>options\<close> fixed, \<^verbatim>\<open>parse_meta\<close> returns the same pair for
  any two values of its parameter \<^verbatim>\<open>meta\<close>. The method of s3upv2.py has the same body.
\<close>

theorem parse_meta_ignores_meta: "parse_meta opts meta1 = parse_meta opts meta2"
  by (simp add: parse_meta_def)

end
